theory Spec2Isabelle
  imports
    Complex_Main
    "HOL-Library.List_Lexorder"
    "HOL-Library.Char_ord"
    "HOL-Library.Multiset"
    "HOL-Library.Sublist"
begin

section \<open>Book swap backend: the data model\<close>

text \<open>
  The repository holds two versions of the same canister, \<^verbatim>\<open>src/index.ts\<close> and an unnamed
  file (called \<^verbatim>\<open>part_000\<close> here). The four entity classes, the four storage tables and the
  four list handlers are the same text in both; the create handlers differ in how they
  validate the request body. Both versions are embedded.
\<close>

subsection \<open>JavaScript values\<close>

text \<open>
  A request body is what \<^verbatim>\<open>express.json()\<close> left in \<^verbatim>\<open>req.body\<close>: a parsed JSON object.
  The TypeScript annotations are erased at run time, so a property of the body may hold any
  JavaScript value. A JavaScript number is a double; only its being zero or NaN matters to the
  handlers, so the finite values are taken from the rationals (a superset of the finite doubles)
  next to the four special values.
\<close>

datatype number = Finite rat | NegZero | PosInfinity | NegInfinity | NaN

datatype jsval =
    JUndefined
  | JNull
  | JBool bool
  | JNum number
  | JStr string
  | JArr "jsval list"
  | JObj "(string \<times> jsval) list"

text \<open>The operator \<^verbatim>\<open>!x\<close>: true on the falsy values \<^verbatim>\<open>undefined, null, false, 0, -0, NaN, ""\<close>.\<close>

fun js_not :: "jsval \<Rightarrow> bool" where
  "js_not JUndefined = True"
| "js_not JNull = True"
| "js_not (JBool b) = (\<not> b)"
| "js_not (JNum (Finite r)) = (r = 0)"
| "js_not (JNum NegZero) = True"
| "js_not (JNum NaN) = True"
| "js_not (JNum PosInfinity) = False"
| "js_not (JNum NegInfinity) = False"
| "js_not (JStr s) = (s = [])"
| "js_not (JArr xs) = False"
| "js_not (JObj kvs) = False"

text \<open>The operator \<^verbatim>\<open>typeof x\<close>.\<close>

fun typeof :: "jsval \<Rightarrow> string" where
  "typeof JUndefined = ''undefined''"
| "typeof JNull = ''object''"
| "typeof (JBool b) = ''boolean''"
| "typeof (JNum n) = ''number''"
| "typeof (JStr s) = ''string''"
| "typeof (JArr xs) = ''object''"
| "typeof (JObj kvs) = ''object''"

type_synonym body = "(string \<times> jsval) list"

text \<open>
  Property access \<^verbatim>\<open>body[field]\<close>, \<^verbatim>\<open>req.body.name\<close>: \<^verbatim>\<open>undefined\<close> when the object has no such key.
  The object is written as an association list; where the list repeats a key, its first entry
  is the property. An array body, or the empty object that \<^verbatim>\<open>express.json()\<close> leaves for a
  request without JSON, has none of the properties the handlers read, like \<open>[]\<close>.
\<close>

definition js_get :: "body \<Rightarrow> string \<Rightarrow> jsval" where
  "js_get b field = (case map_of b field of None \<Rightarrow> JUndefined | Some v \<Rightarrow> v)"

subsection \<open>Entities\<close>

text \<open>
  The classes \<^verbatim>\<open>User\<close>, \<^verbatim>\<open>Book\<close>, \<^verbatim>\<open>SwapRequest\<close> and \<^verbatim>\<open>Feedback\<close>. A domain field holds
  whatever value the constructor was given. \<^verbatim>\<open>createdAt\<close> is a \<^verbatim>\<open>Date\<close>, kept as its
  millisecond count.
\<close>

type_synonym Date = int

record User =
  id :: string
  name :: jsval
  email :: jsval
  createdAt :: Date

record Book =
  id :: string
  userId :: jsval
  title :: jsval
  author :: jsval
  description :: jsval
  createdAt :: Date

record SwapRequest =
  id :: string
  bookId :: jsval
  requestedById :: jsval
  status :: jsval
  createdAt :: Date

record Feedback =
  id :: string
  userId :: jsval
  swapRequestId :: jsval
  rating :: jsval
  comment :: jsval
  createdAt :: Date

text \<open>
  A constructor calls \<^verbatim>\<open>uuidv4()\<close> and \<^verbatim>\<open>new Date()\<close> once each. Both are outside the
  program; a request brings with it the two results that the calls have when its handler
  makes them (a handler that rejects the request, or lists, makes neither call).
\<close>

record env =
  uuidv4 :: string
  new_Date :: Date

definition new_User :: "env \<Rightarrow> jsval \<Rightarrow> jsval \<Rightarrow> User" where
  "new_User e name' email' =
     \<lparr>User.id = uuidv4 e, User.name = name', User.email = email', User.createdAt = new_Date e\<rparr>"

definition new_Book :: "env \<Rightarrow> jsval \<Rightarrow> jsval \<Rightarrow> jsval \<Rightarrow> jsval \<Rightarrow> Book" where
  "new_Book e userId' title' author' description' =
     \<lparr>Book.id = uuidv4 e, Book.userId = userId', Book.title = title', Book.author = author',
      Book.description = description', Book.createdAt = new_Date e\<rparr>"

definition new_SwapRequest :: "env \<Rightarrow> jsval \<Rightarrow> jsval \<Rightarrow> jsval \<Rightarrow> SwapRequest" where
  "new_SwapRequest e bookId' requestedById' status' =
     \<lparr>SwapRequest.id = uuidv4 e, SwapRequest.bookId = bookId',
      SwapRequest.requestedById = requestedById', SwapRequest.status = status',
      SwapRequest.createdAt = new_Date e\<rparr>"

definition new_Feedback :: "env \<Rightarrow> jsval \<Rightarrow> jsval \<Rightarrow> jsval \<Rightarrow> jsval \<Rightarrow> Feedback" where
  "new_Feedback e userId' swapRequestId' rating' comment' =
     \<lparr>Feedback.id = uuidv4 e, Feedback.userId = userId', Feedback.swapRequestId = swapRequestId',
      Feedback.rating = rating', Feedback.comment = comment', Feedback.createdAt = new_Date e\<rparr>"

subsection \<open>Storage tables\<close>

text \<open>
  Modelled from the spec: \<^verbatim>\<open>StableBTreeMap\<close> belongs to the azle library, whose code is not
  part of the repository. Section 4.2 of the specification describes it as an ordered mapping
  from id to entity: \<^verbatim>\<open>insert\<close> adds an entry and silently overwrites the entry of a key that
  is already there, \<^verbatim>\<open>values\<close> returns all stored entities in ascending key order. The table is
  an association list kept in strictly ascending key order; keys are compared as strings,
  lexicographically. Both operations are called inside \<^verbatim>\<open>try\<close>, so they return a sum; the
  table of the model never throws.
\<close>

type_synonym 'v StableBTreeMap = "(string \<times> 'v) list"

datatype exn = Thrown string

fun put :: "string \<Rightarrow> 'v \<Rightarrow> 'v StableBTreeMap \<Rightarrow> 'v StableBTreeMap" where
  "put k v [] = [(k, v)]"
| "put k v ((k', v') # t) =
     (if k < k' then (k, v) # (k', v') # t
      else if k = k' then (k, v) # t
      else (k', v') # put k v t)"

definition StableBTreeMap_insert ::
    "'v StableBTreeMap \<Rightarrow> string \<Rightarrow> 'v \<Rightarrow> exn + 'v StableBTreeMap" where
  "StableBTreeMap_insert t k v = Inr (put k v t)"

definition StableBTreeMap_values :: "'v StableBTreeMap \<Rightarrow> exn + 'v list" where
  "StableBTreeMap_values t = Inr (map snd t)"

record state =
  usersStorage :: "User StableBTreeMap"
  booksStorage :: "Book StableBTreeMap"
  swapRequestsStorage :: "SwapRequest StableBTreeMap"
  feedbackStorage :: "Feedback StableBTreeMap"

definition init :: state where
  "init = \<lparr>usersStorage = [], booksStorage = [], swapRequestsStorage = [], feedbackStorage = []\<rparr>"

subsection \<open>Responses\<close>

text \<open>The JSON object given to \<^verbatim>\<open>res.json\<close>, one constructor for each shape the handlers send.\<close>

datatype json =
    Error string
  | UserCreated string User
  | UsersRetrieved string "User list"
  | BookCreated string Book
  | BooksRetrieved string "Book list"
  | SwapRequestCreated string SwapRequest
  | SwapRequestsRetrieved string "SwapRequest list"
  | FeedbackCreated string Feedback
  | FeedbackRetrieved string "Feedback list"

record response =
  code :: nat
  sent :: json

section \<open>The handlers\<close>

subsection \<open>Create handlers of \<^verbatim>\<open>src/index.ts\<close>\<close>

definition validateRequestBody :: "body \<Rightarrow> string list \<Rightarrow> bool" where
  "validateRequestBody b requiredFields =
     list_all (\<lambda>field. js_get b field \<noteq> JUndefined \<and> js_get b field \<noteq> JNull) requiredFields"

definition index_post_users :: "env \<Rightarrow> body \<Rightarrow> state \<Rightarrow> response \<times> state" where
  "index_post_users e b s =
     (let name' = js_get b ''name''; email' = js_get b ''email'' in
      if \<not> validateRequestBody b [''name'', ''email''] then
        (\<lparr>code = 400, sent = Error
           ''Invalid input: Ensure 'name' and 'email' are provided and are strings.''\<rparr>, s)
      else
        (let user = new_User e name' email' in
         case StableBTreeMap_insert (usersStorage s) (User.id user) user of
           Inr t \<Rightarrow>
             (\<lparr>code = 201, sent = UserCreated ''User created successfully'' user\<rparr>,
              s\<lparr>usersStorage := t\<rparr>)
         | Inl error \<Rightarrow>
             (\<lparr>code = 500, sent = Error ''Server error occurred while creating the user.''\<rparr>, s)))"

definition index_post_books :: "env \<Rightarrow> body \<Rightarrow> state \<Rightarrow> response \<times> state" where
  "index_post_books e b s =
     (let userId' = js_get b ''userId''; title' = js_get b ''title'';
          author' = js_get b ''author''; description' = js_get b ''description'' in
      if \<not> validateRequestBody b [''userId'', ''title'', ''author'', ''description''] then
        (\<lparr>code = 400, sent = Error
           ''Invalid input: Ensure 'userId', 'title', 'author', and 'description' are provided and are of the correct types.''\<rparr>, s)
      else
        (let book = new_Book e userId' title' author' description' in
         case StableBTreeMap_insert (booksStorage s) (Book.id book) book of
           Inr t \<Rightarrow>
             (\<lparr>code = 201, sent = BookCreated ''Book created successfully'' book\<rparr>,
              s\<lparr>booksStorage := t\<rparr>)
         | Inl error \<Rightarrow>
             (\<lparr>code = 500, sent = Error ''Server error occurred while creating the book.''\<rparr>, s)))"

definition index_post_swapRequests :: "env \<Rightarrow> body \<Rightarrow> state \<Rightarrow> response \<times> state" where
  "index_post_swapRequests e b s =
     (let bookId' = js_get b ''bookId''; requestedById' = js_get b ''requestedById'';
          status' = js_get b ''status'' in
      if \<not> validateRequestBody b [''bookId'', ''requestedById'', ''status''] then
        (\<lparr>code = 400, sent = Error
           ''Invalid input: Ensure 'bookId', 'requestedById', and 'status' are provided and are of the correct types.''\<rparr>, s)
      else
        (let swapRequest = new_SwapRequest e bookId' requestedById' status' in
         case StableBTreeMap_insert (swapRequestsStorage s) (SwapRequest.id swapRequest) swapRequest of
           Inr t \<Rightarrow>
             (\<lparr>code = 201, sent = SwapRequestCreated ''Swap request created successfully'' swapRequest\<rparr>,
              s\<lparr>swapRequestsStorage := t\<rparr>)
         | Inl error \<Rightarrow>
             (\<lparr>code = 500, sent = Error ''Server error occurred while creating the swap request.''\<rparr>, s)))"

definition index_post_feedback :: "env \<Rightarrow> body \<Rightarrow> state \<Rightarrow> response \<times> state" where
  "index_post_feedback e b s =
     (let userId' = js_get b ''userId''; swapRequestId' = js_get b ''swapRequestId'';
          rating' = js_get b ''rating''; comment' = js_get b ''comment'' in
      if \<not> validateRequestBody b [''userId'', ''swapRequestId'', ''rating'', ''comment''] then
        (\<lparr>code = 400, sent = Error
           ''Invalid input: Ensure 'userId', 'swapRequestId', 'rating', and 'comment' are provided and are of the correct types.''\<rparr>, s)
      else
        (let feedback = new_Feedback e userId' swapRequestId' rating' comment' in
         case StableBTreeMap_insert (feedbackStorage s) (Feedback.id feedback) feedback of
           Inr t \<Rightarrow>
             (\<lparr>code = 201, sent = FeedbackCreated ''Feedback created successfully'' feedback\<rparr>,
              s\<lparr>feedbackStorage := t\<rparr>)
         | Inl error \<Rightarrow>
             (\<lparr>code = 500, sent = Error ''Server error occurred while creating the feedback.''\<rparr>, s)))"

subsection \<open>Create handlers of \<^verbatim>\<open>part_000\<close>\<close>

definition part000_post_users :: "env \<Rightarrow> body \<Rightarrow> state \<Rightarrow> response \<times> state" where
  "part000_post_users e b s =
     (if js_not (js_get b ''name'') \<or> typeof (js_get b ''name'') \<noteq> ''string'' \<or>
         js_not (js_get b ''email'') \<or> typeof (js_get b ''email'') \<noteq> ''string'' then
        (\<lparr>code = 400, sent = Error
           ''Invalid input: Ensure 'name' and 'email' are provided and are strings.''\<rparr>, s)
      else
        (let user = new_User e (js_get b ''name'') (js_get b ''email'') in
         case StableBTreeMap_insert (usersStorage s) (User.id user) user of
           Inr t \<Rightarrow>
             (\<lparr>code = 201, sent = UserCreated ''User created successfully'' user\<rparr>,
              s\<lparr>usersStorage := t\<rparr>)
         | Inl error \<Rightarrow>
             (\<lparr>code = 500, sent = Error ''Server error occurred while creating the user.''\<rparr>, s)))"

definition part000_post_books :: "env \<Rightarrow> body \<Rightarrow> state \<Rightarrow> response \<times> state" where
  "part000_post_books e b s =
     (if js_not (js_get b ''userId'') \<or> typeof (js_get b ''userId'') \<noteq> ''string'' \<or>
         js_not (js_get b ''title'') \<or> typeof (js_get b ''title'') \<noteq> ''string'' \<or>
         js_not (js_get b ''author'') \<or> typeof (js_get b ''author'') \<noteq> ''string'' \<or>
         js_not (js_get b ''description'') \<or> typeof (js_get b ''description'') \<noteq> ''string'' then
        (\<lparr>code = 400, sent = Error
           ''Invalid input: Ensure 'userId', 'title', 'author', and 'description' are provided and are of the correct types.''\<rparr>, s)
      else
        (let book = new_Book e (js_get b ''userId'') (js_get b ''title'') (js_get b ''author'')
                      (js_get b ''description'') in
         case StableBTreeMap_insert (booksStorage s) (Book.id book) book of
           Inr t \<Rightarrow>
             (\<lparr>code = 201, sent = BookCreated ''Book created successfully'' book\<rparr>,
              s\<lparr>booksStorage := t\<rparr>)
         | Inl error \<Rightarrow>
             (\<lparr>code = 500, sent = Error ''Server error occurred while creating the book.''\<rparr>, s)))"

definition part000_post_swapRequests :: "env \<Rightarrow> body \<Rightarrow> state \<Rightarrow> response \<times> state" where
  "part000_post_swapRequests e b s =
     (if js_not (js_get b ''bookId'') \<or> typeof (js_get b ''bookId'') \<noteq> ''string'' \<or>
         js_not (js_get b ''requestedById'') \<or> typeof (js_get b ''requestedById'') \<noteq> ''string'' \<or>
         js_not (js_get b ''status'') \<or> typeof (js_get b ''status'') \<noteq> ''string'' then
        (\<lparr>code = 400, sent = Error
           ''Invalid input: Ensure 'bookId', 'requestedById', and 'status' are provided and are of the correct types.''\<rparr>, s)
      else
        (let swapRequest = new_SwapRequest e (js_get b ''bookId'') (js_get b ''requestedById'')
                             (js_get b ''status'') in
         case StableBTreeMap_insert (swapRequestsStorage s) (SwapRequest.id swapRequest) swapRequest of
           Inr t \<Rightarrow>
             (\<lparr>code = 201, sent = SwapRequestCreated ''Swap request created successfully'' swapRequest\<rparr>,
              s\<lparr>swapRequestsStorage := t\<rparr>)
         | Inl error \<Rightarrow>
             (\<lparr>code = 500, sent = Error ''Server error occurred while creating the swap request.''\<rparr>, s)))"

definition part000_post_feedback :: "env \<Rightarrow> body \<Rightarrow> state \<Rightarrow> response \<times> state" where
  "part000_post_feedback e b s =
     (if js_not (js_get b ''userId'') \<or> typeof (js_get b ''userId'') \<noteq> ''string'' \<or>
         js_not (js_get b ''swapRequestId'') \<or> typeof (js_get b ''swapRequestId'') \<noteq> ''string'' \<or>
         js_not (js_get b ''rating'') \<or> typeof (js_get b ''rating'') \<noteq> ''number'' \<or>
         js_not (js_get b ''comment'') \<or> typeof (js_get b ''comment'') \<noteq> ''string'' then
        (\<lparr>code = 400, sent = Error
           ''Invalid input: Ensure 'userId', 'swapRequestId', 'rating', and 'comment' are provided and are of the correct types.''\<rparr>, s)
      else
        (let feedback = new_Feedback e (js_get b ''userId'') (js_get b ''swapRequestId'')
                          (js_get b ''rating'') (js_get b ''comment'') in
         case StableBTreeMap_insert (feedbackStorage s) (Feedback.id feedback) feedback of
           Inr t \<Rightarrow>
             (\<lparr>code = 201, sent = FeedbackCreated ''Feedback created successfully'' feedback\<rparr>,
              s\<lparr>feedbackStorage := t\<rparr>)
         | Inl error \<Rightarrow>
             (\<lparr>code = 500, sent = Error ''Server error occurred while creating the feedback.''\<rparr>, s)))"

subsection \<open>List handlers (the same in both files)\<close>

definition get_users :: "state \<Rightarrow> response \<times> state" where
  "get_users s =
     (case StableBTreeMap_values (usersStorage s) of
        Inr users \<Rightarrow> (\<lparr>code = 200, sent = UsersRetrieved ''Users retrieved successfully'' users\<rparr>, s)
      | Inl error \<Rightarrow>
          (\<lparr>code = 500, sent = Error ''Server error occurred while retrieving users.''\<rparr>, s))"

definition get_books :: "state \<Rightarrow> response \<times> state" where
  "get_books s =
     (case StableBTreeMap_values (booksStorage s) of
        Inr books \<Rightarrow> (\<lparr>code = 200, sent = BooksRetrieved ''Books retrieved successfully'' books\<rparr>, s)
      | Inl error \<Rightarrow>
          (\<lparr>code = 500, sent = Error ''Server error occurred while retrieving books.''\<rparr>, s))"

definition get_swapRequests :: "state \<Rightarrow> response \<times> state" where
  "get_swapRequests s =
     (case StableBTreeMap_values (swapRequestsStorage s) of
        Inr swapRequests \<Rightarrow>
          (\<lparr>code = 200, sent = SwapRequestsRetrieved ''Swap requests retrieved successfully''
                                 swapRequests\<rparr>, s)
      | Inl error \<Rightarrow>
          (\<lparr>code = 500, sent = Error ''Server error occurred while retrieving swap requests.''\<rparr>, s))"

definition get_feedback :: "state \<Rightarrow> response \<times> state" where
  "get_feedback s =
     (case StableBTreeMap_values (feedbackStorage s) of
        Inr feedback \<Rightarrow>
          (\<lparr>code = 200, sent = FeedbackRetrieved ''Feedback retrieved successfully'' feedback\<rparr>, s)
      | Inl error \<Rightarrow>
          (\<lparr>code = 500, sent = Error ''Server error occurred while retrieving feedback.''\<rparr>, s))"

subsection \<open>Routing\<close>

text \<open>
  The eight routes registered on \<^verbatim>\<open>app\<close>. A request is served by the handler of its route
  in the chosen version of the file.
\<close>

datatype version = Index | Part000

datatype request =
    POST_users body
  | GET_users
  | POST_books body
  | GET_books
  | POST_swapRequests body
  | GET_swapRequests
  | POST_feedback body
  | GET_feedback

fun handle :: "version \<Rightarrow> env \<Rightarrow> request \<Rightarrow> state \<Rightarrow> response \<times> state" where
  "handle Index e (POST_users b) s = index_post_users e b s"
| "handle Part000 e (POST_users b) s = part000_post_users e b s"
| "handle v e GET_users s = get_users s"
| "handle Index e (POST_books b) s = index_post_books e b s"
| "handle Part000 e (POST_books b) s = part000_post_books e b s"
| "handle v e GET_books s = get_books s"
| "handle Index e (POST_swapRequests b) s = index_post_swapRequests e b s"
| "handle Part000 e (POST_swapRequests b) s = part000_post_swapRequests e b s"
| "handle v e GET_swapRequests s = get_swapRequests s"
| "handle Index e (POST_feedback b) s = index_post_feedback e b s"
| "handle Part000 e (POST_feedback b) s = part000_post_feedback e b s"
| "handle v e GET_feedback s = get_feedback s"

text \<open>Serving a sequence of requests, one after the other; the responses come back in order.\<close>

fun run :: "version \<Rightarrow> (env \<times> request) list \<Rightarrow> state \<Rightarrow> response list \<times> state" where
  "run v [] s = ([], s)"
| "run v ((e, r) # evs) s =
     (let (resp, s') = handle v e r s;
          (resps, s'') = run v evs s'
      in (resp # resps, s''))"

section \<open>Vocabulary of the properties\<close>

text \<open>
  The body of a create request, and the required fields of its endpoint with the result of
  \<^verbatim>\<open>typeof\<close> each one is meant to have. They are the names that \<^verbatim>\<open>src/index.ts\<close> passes to
  \<^verbatim>\<open>validateRequestBody\<close> and that \<^verbatim>\<open>part_000\<close> tests one by one.
\<close>

fun body_of :: "request \<Rightarrow> body" where
  "body_of (POST_users b) = b"
| "body_of (POST_books b) = b"
| "body_of (POST_swapRequests b) = b"
| "body_of (POST_feedback b) = b"
| "body_of GET_users = []"
| "body_of GET_books = []"
| "body_of GET_swapRequests = []"
| "body_of GET_feedback = []"

fun required :: "request \<Rightarrow> (string \<times> string) list" where
  "required (POST_users b) = [(''name'', ''string''), (''email'', ''string'')]"
| "required (POST_books b) =
     [(''userId'', ''string''), (''title'', ''string''), (''author'', ''string''),
      (''description'', ''string'')]"
| "required (POST_swapRequests b) =
     [(''bookId'', ''string''), (''requestedById'', ''string''), (''status'', ''string'')]"
| "required (POST_feedback b) =
     [(''userId'', ''string''), (''swapRequestId'', ''string''), (''rating'', ''number''),
      (''comment'', ''string'')]"
| "required GET_users = []"
| "required GET_books = []"
| "required GET_swapRequests = []"
| "required GET_feedback = []"

fun is_create :: "request \<Rightarrow> bool" where
  "is_create (POST_users b) = True"
| "is_create (POST_books b) = True"
| "is_create (POST_swapRequests b) = True"
| "is_create (POST_feedback b) = True"
| "is_create GET_users = False"
| "is_create GET_books = False"
| "is_create GET_swapRequests = False"
| "is_create GET_feedback = False"

text \<open>The fixed text of the 400 response of each create endpoint (the same in both files).\<close>

fun invalid_input :: "request \<Rightarrow> string" where
  "invalid_input (POST_users b) =
     ''Invalid input: Ensure 'name' and 'email' are provided and are strings.''"
| "invalid_input (POST_books b) =
     ''Invalid input: Ensure 'userId', 'title', 'author', and 'description' are provided and are of the correct types.''"
| "invalid_input (POST_swapRequests b) =
     ''Invalid input: Ensure 'bookId', 'requestedById', and 'status' are provided and are of the correct types.''"
| "invalid_input (POST_feedback b) =
     ''Invalid input: Ensure 'userId', 'swapRequestId', 'rating', and 'comment' are provided and are of the correct types.''"
| "invalid_input GET_users = []"
| "invalid_input GET_books = []"
| "invalid_input GET_swapRequests = []"
| "invalid_input GET_feedback = []"

text \<open>A message names a field when it contains the field's name between apostrophes.\<close>

definition quoted :: "string \<Rightarrow> string" where
  "quoted f = [CHR 0x27] @ f @ [CHR 0x27]"

definition names_field :: "string \<Rightarrow> string \<Rightarrow> bool" where
  "names_field msg f = sublist (quoted f) msg"

text \<open>The generated ids that a sequence of requests brings with it.\<close>

fun uuids :: "(env \<times> request) list \<Rightarrow> string list" where
  "uuids [] = []"
| "uuids ((e, r) # evs) = uuidv4 e # uuids evs"

text \<open>The entity that a response reports as created, if any, and those of a list of responses.\<close>

definition user_of :: "response \<Rightarrow> User list" where
  "user_of r = (case sent r of UserCreated m u \<Rightarrow> [u] | _ \<Rightarrow> [])"

definition book_of :: "response \<Rightarrow> Book list" where
  "book_of r = (case sent r of BookCreated m b \<Rightarrow> [b] | _ \<Rightarrow> [])"

definition swapRequest_of :: "response \<Rightarrow> SwapRequest list" where
  "swapRequest_of r = (case sent r of SwapRequestCreated m x \<Rightarrow> [x] | _ \<Rightarrow> [])"

definition feedback_of :: "response \<Rightarrow> Feedback list" where
  "feedback_of r = (case sent r of FeedbackCreated m f \<Rightarrow> [f] | _ \<Rightarrow> [])"

definition created_users :: "response list \<Rightarrow> User list" where
  "created_users rs = concat (map user_of rs)"

definition created_books :: "response list \<Rightarrow> Book list" where
  "created_books rs = concat (map book_of rs)"

definition created_swapRequests :: "response list \<Rightarrow> SwapRequest list" where
  "created_swapRequests rs = concat (map swapRequest_of rs)"

definition created_feedback :: "response list \<Rightarrow> Feedback list" where
  "created_feedback rs = concat (map feedback_of rs)"

text \<open>Every entry of every table is stored under the \<^verbatim>\<open>id\<close> of its entity.\<close>

definition keys_are_ids :: "state \<Rightarrow> bool" where
  "keys_are_ids s =
     ((\<forall>(k, u) \<in> set (usersStorage s). k = User.id u) \<and>
      (\<forall>(k, b) \<in> set (booksStorage s). k = Book.id b) \<and>
      (\<forall>(k, x) \<in> set (swapRequestsStorage s). k = SwapRequest.id x) \<and>
      (\<forall>(k, f) \<in> set (feedbackStorage s). k = Feedback.id f))"

text \<open>The keys of the four tables together.\<close>

definition stored_ids :: "state \<Rightarrow> string list" where
  "stored_ids s =
     map fst (usersStorage s) @ map fst (booksStorage s) @ map fst (swapRequestsStorage s) @
     map fst (feedbackStorage s)"

section \<open>Properties\<close>

subsection \<open>The table\<close>

lemma keys_put: "set (map fst (put k v t)) = insert k (set (map fst t))"
proof (induction t)
  case Nil
  then show ?case by simp
next
  case (Cons p t)
  obtain k' v' where p: "p = (k', v')" by (cases p)
  from Cons show ?case unfolding p by (simp add: insert_commute)
qed

lemma put_fresh_mset: "k \<notin> set (map fst t) \<Longrightarrow> mset (put k v t) = add_mset (k, v) (mset t)"
  by (induction t) auto

lemma sorted_put:
  "sorted_wrt (<) (map fst t) \<Longrightarrow> sorted_wrt (<) (map fst (put k v t))"
proof (induction t)
  case Nil
  then show ?case by simp
next
  case (Cons p t)
  obtain k' v' where p: "p = (k', v')" by (cases p)
  show ?case
  proof (cases "k < k'")
    case True
    with Cons.prems p show ?thesis by auto
  next
    case False
    show ?thesis
    proof (cases "k = k'")
      case True
      with Cons.prems p show ?thesis by auto
    next
      case ne: False
      with False have lt: "k' < k" by simp
      have "\<forall>x \<in> set (map fst (put k v t)). k' < x"
        using Cons.prems p lt by (auto simp only: keys_put) auto
      with Cons p False ne show ?thesis by simp
    qed
  qed
qed

lemma put_member: "(k, v) \<in> set (put k v t)"
  by (induction t) auto

lemma put_keeps: "(k', v') \<in> set t \<Longrightarrow> k' \<noteq> k \<Longrightarrow> (k', v') \<in> set (put k v t)"
  by (induction t) auto

lemma set_put_subset: "set (put k v t) \<subseteq> insert (k, v) (set t)"
  by (induction t) (auto split: if_splits)

subsection \<open>One request\<close>

lemmas handler_defs =
  index_post_users_def index_post_books_def index_post_swapRequests_def index_post_feedback_def
  part000_post_users_def part000_post_books_def part000_post_swapRequests_def
  part000_post_feedback_def get_users_def get_books_def get_swapRequests_def get_feedback_def
  StableBTreeMap_insert_def StableBTreeMap_values_def
  new_User_def new_Book_def new_SwapRequest_def new_Feedback_def

lemma invalid_input_names:
  "(f, ty) \<in> set (required r) \<Longrightarrow> names_field (invalid_input r) f"
  by (cases r) (auto simp: names_field_def quoted_def sublist_Cons_right)

lemma part000_rejects:
  assumes "(f, ty) \<in> set (required r)"
    and "js_not (js_get (body_of r) f) \<or> typeof (js_get (body_of r) f) \<noteq> ty"
  shows "handle Part000 e r s = (\<lparr>code = 400, sent = Error (invalid_input r)\<rparr>, s)"
  using assms by (cases r) (auto simp: handler_defs)

lemma index_rejects:
  assumes "(f, ty) \<in> set (required r)"
    and "js_get (body_of r) f = JUndefined \<or> js_get (body_of r) f = JNull"
  shows "handle Index e r s = (\<lparr>code = 400, sent = Error (invalid_input r)\<rparr>, s)"
  using assms by (cases r) (auto simp: handler_defs validateRequestBody_def)

lemma missing_rejected:
  assumes "(f, ty) \<in> set (required r)"
    and "js_get (body_of r) f = JUndefined \<or> js_get (body_of r) f = JNull"
  shows "handle v e r s = (\<lparr>code = 400, sent = Error (invalid_input r)\<rparr>, s)"
proof (cases v)
  case Index
  with assms show ?thesis by (simp add: index_rejects)
next
  case Part000
  from assms(2) have "js_not (js_get (body_of r) f)" by auto
  with assms(1) Part000 show ?thesis by (simp add: part000_rejects)
qed

lemma list_handled:
  "\<not> is_create r \<Longrightarrow> snd (handle v e r s) = s \<and> code (fst (handle v e r s)) = 200 \<and>
     handle v e' r s = handle v e r s"
  by (cases r) (simp_all add: handler_defs)

lemma run_lists:
  "\<forall>ev \<in> set evs. \<not> is_create (snd ev) \<Longrightarrow> snd (run v evs s) = s"
proof (induction evs arbitrary: s)
  case Nil
  then show ?case by simp
next
  case (Cons ev evs)
  obtain e r where ev: "ev = (e, r)" by (cases ev)
  with Cons.prems have "snd (handle v e r s) = s" by (simp add: list_handled)
  with Cons ev show ?case by (simp add: split_beta)
qed

lemma handle_outcome:
  "(handle v e r s = (\<lparr>code = 400, sent = Error (invalid_input r)\<rparr>, s) \<and> is_create r) \<or>
   (snd (handle v e r s) = s \<and> code (fst (handle v e r s)) = 200 \<and> \<not> is_create r) \<or>
   (\<exists>b u. r = POST_users b \<and> User.id u = uuidv4 e \<and>
      handle v e r s = (\<lparr>code = 201, sent = UserCreated ''User created successfully'' u\<rparr>,
                        s\<lparr>usersStorage := put (uuidv4 e) u (usersStorage s)\<rparr>)) \<or>
   (\<exists>b u. r = POST_books b \<and> Book.id u = uuidv4 e \<and>
      handle v e r s = (\<lparr>code = 201, sent = BookCreated ''Book created successfully'' u\<rparr>,
                        s\<lparr>booksStorage := put (uuidv4 e) u (booksStorage s)\<rparr>)) \<or>
   (\<exists>b u. r = POST_swapRequests b \<and> SwapRequest.id u = uuidv4 e \<and>
      handle v e r s =
        (\<lparr>code = 201, sent = SwapRequestCreated ''Swap request created successfully'' u\<rparr>,
         s\<lparr>swapRequestsStorage := put (uuidv4 e) u (swapRequestsStorage s)\<rparr>)) \<or>
   (\<exists>b u. r = POST_feedback b \<and> Feedback.id u = uuidv4 e \<and>
      handle v e r s = (\<lparr>code = 201, sent = FeedbackCreated ''Feedback created successfully'' u\<rparr>,
                        s\<lparr>feedbackStorage := put (uuidv4 e) u (feedbackStorage s)\<rparr>))"
  by (cases v; cases r) (simp_all add: handler_defs Let_def)


lemma handle_cases [case_names Rejected Listed User Book SwapRequest Feedback]:
  obtains
    (Rejected) "is_create r"
      "handle v e r s = (\<lparr>code = 400, sent = Error (invalid_input r)\<rparr>, s)"
  | (Listed) "\<not> is_create r" "snd (handle v e r s) = s" "code (fst (handle v e r s)) = 200"
  | (User) b u where "r = POST_users b" "User.id u = uuidv4 e"
      "handle v e r s = (\<lparr>code = 201, sent = UserCreated ''User created successfully'' u\<rparr>,
                        s\<lparr>usersStorage := put (uuidv4 e) u (usersStorage s)\<rparr>)"
  | (Book) b u where "r = POST_books b" "Book.id u = uuidv4 e"
      "handle v e r s = (\<lparr>code = 201, sent = BookCreated ''Book created successfully'' u\<rparr>,
                        s\<lparr>booksStorage := put (uuidv4 e) u (booksStorage s)\<rparr>)"
  | (SwapRequest) b u where "r = POST_swapRequests b" "SwapRequest.id u = uuidv4 e"
      "handle v e r s =
        (\<lparr>code = 201, sent = SwapRequestCreated ''Swap request created successfully'' u\<rparr>,
         s\<lparr>swapRequestsStorage := put (uuidv4 e) u (swapRequestsStorage s)\<rparr>)"
  | (Feedback) b u where "r = POST_feedback b" "Feedback.id u = uuidv4 e"
      "handle v e r s = (\<lparr>code = 201, sent = FeedbackCreated ''Feedback created successfully'' u\<rparr>,
                        s\<lparr>feedbackStorage := put (uuidv4 e) u (feedbackStorage s)\<rparr>)"
  using handle_outcome [of v e r s] by blast

lemma part000_rejects_empty_string:
  assumes "(f, ''string'') \<in> set (required r)" and "js_get (body_of r) f = JStr ''''"
  shows "handle Part000 e r s = (\<lparr>code = 400, sent = Error (invalid_input r)\<rparr>, s)"
proof -
  from assms(2) have "js_not (js_get (body_of r) f)" by simp
  with assms(1) show ?thesis by (simp add: part000_rejects)
qed

lemma feedback_accepted:
  assumes "js_get b ''userId'' = JStr u" "u \<noteq> []"
    and "js_get b ''swapRequestId'' = JStr q" "q \<noteq> []"
    and "js_get b ''rating'' = JNum n"
    and "js_get b ''comment'' = JStr c" "c \<noteq> []"
    and "v = Index \<or> \<not> js_not (JNum n)"
  shows "handle v e (POST_feedback b) s =
     (\<lparr>code = 201, sent = FeedbackCreated ''Feedback created successfully''
         (new_Feedback e (JStr u) (JStr q) (JNum n) (JStr c))\<rparr>,
      s\<lparr>feedbackStorage := put (uuidv4 e) (new_Feedback e (JStr u) (JStr q) (JNum n) (JStr c))
         (feedbackStorage s)\<rparr>)"
  using assms by (cases v)
    (simp_all add: index_post_feedback_def part000_post_feedback_def validateRequestBody_def
       StableBTreeMap_insert_def Let_def new_Feedback_def)

subsection \<open>Validation\<close>

text \<open>
  C1. A create request with a required field of the wrong primitive type is answered with 400
  and nothing is stored. The handler of \<^verbatim>\<open>part_000\<close> does so (\<open>part000_rejects\<close>, whose second
  hypothesis holds of any value with another \<^verbatim>\<open>typeof\<close>). The handler of \<^verbatim>\<open>src/index.ts\<close> does
  not: \<^verbatim>\<open>validateRequestBody\<close> looks at presence only, so the request of the specification's
  scenario, with \<^verbatim>\<open>rating\<close> the string \<^verbatim>\<open>"five"\<close>, is answered with 201 and a \<^verbatim>\<open>Feedback\<close> whose
  rating is that string is put into the feedback table.
\<close>

theorem index_stores_feedback_with_string_rating:
  "handle Index e (POST_feedback
       [(''userId'', JStr ''u1''), (''swapRequestId'', JStr ''s1''), (''rating'', JStr ''five''),
        (''comment'', JStr ''ok'')]) s =
     (\<lparr>code = 201, sent = FeedbackCreated ''Feedback created successfully''
         \<lparr>Feedback.id = uuidv4 e, Feedback.userId = JStr ''u1'',
          Feedback.swapRequestId = JStr ''s1'', Feedback.rating = JStr ''five'',
          Feedback.comment = JStr ''ok'', Feedback.createdAt = new_Date e\<rparr>\<rparr>,
      s\<lparr>feedbackStorage := put (uuidv4 e)
         \<lparr>Feedback.id = uuidv4 e, Feedback.userId = JStr ''u1'',
          Feedback.swapRequestId = JStr ''s1'', Feedback.rating = JStr ''five'',
          Feedback.comment = JStr ''ok'', Feedback.createdAt = new_Date e\<rparr>
         (feedbackStorage s)\<rparr>)"
  by (simp add: handler_defs validateRequestBody_def js_get_def Let_def)

text \<open>
  C2. A create request in which a required field is missing, \<^verbatim>\<open>null\<close> or \<^verbatim>\<open>undefined\<close> is
  answered, in both versions, with 400 and an error message that names every required field of
  the endpoint; the state is the one before the request, so every later sequence of requests
  (list calls among them) gets the answers it would have got without the rejected request.
\<close>

theorem missing_required_field_rejected:
  assumes "(f, ty) \<in> set (required r)"
    and "js_get (body_of r) f = JUndefined \<or> js_get (body_of r) f = JNull"
  shows "\<exists>msg. handle v e r s = (\<lparr>code = 400, sent = Error msg\<rparr>, s) \<and>
           (\<forall>g \<in> set (map fst (required r)). names_field msg g) \<and>
           (\<forall>evs. run v evs (snd (handle v e r s)) = run v evs s)"
proof -
  have h: "handle v e r s = (\<lparr>code = 400, sent = Error (invalid_input r)\<rparr>, s)"
    using assms by (rule missing_rejected)
  have "\<forall>g \<in> set (map fst (required r)). names_field (invalid_input r) g"
    using invalid_input_names by auto
  with h show ?thesis by simp
qed

theorem missing_required_field_rejected_witness:
  "(''description'', ''string'') \<in> set (required (POST_books
       [(''userId'', JStr ''u1''), (''title'', JStr ''T''), (''author'', JStr ''A'')])) \<and>
   js_get (body_of (POST_books
       [(''userId'', JStr ''u1''), (''title'', JStr ''T''), (''author'', JStr ''A'')]))
     ''description'' = JUndefined \<and>
   (\<exists>msg. handle Index \<lparr>uuidv4 = ''b1'', new_Date = 0\<rparr> (POST_books
       [(''userId'', JStr ''u1''), (''title'', JStr ''T''), (''author'', JStr ''A'')]) init =
       (\<lparr>code = 400, sent = Error msg\<rparr>, init) \<and>
     names_field msg ''description'')"
proof -
  let ?r = "POST_books [(''userId'', JStr ''u1''), (''title'', JStr ''T''), (''author'', JStr ''A'')]"
  have a: "(''description'', ''string'') \<in> set (required ?r)" by simp
  have b: "js_get (body_of ?r) ''description'' = JUndefined" by (simp add: js_get_def)
  from b have c: "js_get (body_of ?r) ''description'' = JUndefined \<or>
      js_get (body_of ?r) ''description'' = JNull" by simp
  from missing_required_field_rejected [OF a c, of Index "\<lparr>uuidv4 = ''b1'', new_Date = 0\<rparr>" init]
  obtain msg where "handle Index \<lparr>uuidv4 = ''b1'', new_Date = 0\<rparr> ?r init =
      (\<lparr>code = 400, sent = Error msg\<rparr>, init)" "names_field msg ''description''"
    by auto
  with a b show ?thesis by blast
qed

text \<open>
  C3. A create request in which a required string field is the empty string is answered with
  400 and nothing is stored. The handler of \<^verbatim>\<open>part_000\<close> does so for every endpoint and every
  required string field (\<open>part000_rejects_empty_string\<close>): its test \<^verbatim>\<open>!req.body.name\<close> holds of
  \<^verbatim>\<open>""\<close>. The handler of \<^verbatim>\<open>src/index.ts\<close> does not: \<^verbatim>\<open>validateRequestBody\<close> compares a field with
  \<^verbatim>\<open>undefined\<close> and \<^verbatim>\<open>null\<close> only, so a request to create a user with the empty \<^verbatim>\<open>name\<close> is
  answered with 201 and a user with that name is put into the users table.
\<close>

theorem index_accepts_empty_name:
  "handle Index \<lparr>uuidv4 = ''u1'', new_Date = 0\<rparr>
     (POST_users [(''name'', JStr ''''), (''email'', JStr ''ada@example.com'')]) init =
   (\<lparr>code = 201, sent = UserCreated ''User created successfully''
       \<lparr>User.id = ''u1'', User.name = JStr '''', User.email = JStr ''ada@example.com'',
        User.createdAt = 0\<rparr>\<rparr>,
    init\<lparr>usersStorage :=
       [(''u1'', \<lparr>User.id = ''u1'', User.name = JStr '''', User.email = JStr ''ada@example.com'',
                 User.createdAt = 0\<rparr>)]\<rparr>)"
  by (simp add: handler_defs validateRequestBody_def js_get_def Let_def init_def)

text \<open>
  C4. A feedback request whose \<^verbatim>\<open>userId\<close>, \<^verbatim>\<open>swapRequestId\<close> and \<^verbatim>\<open>comment\<close> are non-empty
  strings and whose \<^verbatim>\<open>rating\<close> is a number is answered with 201 by \<^verbatim>\<open>src/index.ts\<close> whatever the
  number, and by \<^verbatim>\<open>part_000\<close> when the number is truthy (\<open>feedback_accepted\<close>). With rating 0
  the test \<^verbatim>\<open>!req.body.rating\<close> of \<^verbatim>\<open>part_000\<close> holds, and the request is answered with 400.
\<close>

theorem part000_rejects_rating_zero:
  "handle Part000 e (POST_feedback
       [(''userId'', JStr ''u1''), (''swapRequestId'', JStr ''s1''), (''rating'', JNum (Finite 0)),
        (''comment'', JStr ''ok'')]) s =
     (\<lparr>code = 400, sent = Error
         ''Invalid input: Ensure 'userId', 'swapRequestId', 'rating', and 'comment' are provided and are of the correct types.''\<rparr>,
      s)"
  by (simp add: handler_defs js_get_def)

subsection \<open>List endpoints\<close>

text \<open>
  C8. A list endpoint leaves the four storage tables as they are: the state after a list request,
  and after any sequence of list requests, is the state before; the answer is a 200, and asking
  again, straight away or after any number of list requests, gives the same answer.
\<close>

theorem list_endpoints_are_pure_reads:
  assumes "\<forall>ev \<in> set evs. \<not> is_create (snd ev)" and "\<not> is_create r"
  shows "snd (run v evs s) = s \<and>
         snd (handle v e r s) = s \<and>
         code (fst (handle v e r s)) = 200 \<and>
         handle v e' r (snd (handle v e r s)) = handle v e r s \<and>
         handle v e' r (snd (run v evs s)) = handle v e r s"
  using assms run_lists [of evs v s] list_handled [of r v e s e'] by simp

theorem list_endpoints_are_pure_reads_witness:
  "\<not> is_create GET_users \<and>
   snd (run Part000 [(\<lparr>uuidv4 = ''x1'', new_Date = 1\<rparr>, GET_users),
                     (\<lparr>uuidv4 = ''x2'', new_Date = 2\<rparr>, GET_feedback)]
          (snd (handle Part000 \<lparr>uuidv4 = ''u1'', new_Date = 0\<rparr>
                 (POST_users [(''name'', JStr ''Ada''), (''email'', JStr ''ada@example.com'')])
                 init))) =
     snd (handle Part000 \<lparr>uuidv4 = ''u1'', new_Date = 0\<rparr>
            (POST_users [(''name'', JStr ''Ada''), (''email'', JStr ''ada@example.com'')]) init) \<and>
   handle Part000 \<lparr>uuidv4 = ''x4'', new_Date = 4\<rparr> GET_users
     (snd (run Part000 [(\<lparr>uuidv4 = ''x1'', new_Date = 1\<rparr>, GET_users),
                        (\<lparr>uuidv4 = ''x2'', new_Date = 2\<rparr>, GET_feedback)]
          (snd (handle Part000 \<lparr>uuidv4 = ''u1'', new_Date = 0\<rparr>
                 (POST_users [(''name'', JStr ''Ada''), (''email'', JStr ''ada@example.com'')])
                 init)))) =
     handle Part000 \<lparr>uuidv4 = ''x3'', new_Date = 3\<rparr> GET_users
       (snd (handle Part000 \<lparr>uuidv4 = ''u1'', new_Date = 0\<rparr>
              (POST_users [(''name'', JStr ''Ada''), (''email'', JStr ''ada@example.com'')])
              init))"
proof -
  let ?evs = "[(\<lparr>uuidv4 = ''x1'', new_Date = 1\<rparr>, GET_users),
               (\<lparr>uuidv4 = ''x2'', new_Date = 2\<rparr>, GET_feedback)]"
  have a: "\<forall>ev \<in> set ?evs. \<not> is_create (snd ev)" by simp
  have b: "\<not> is_create GET_users" by simp
  from list_endpoints_are_pure_reads [OF a b] b show ?thesis by blast
qed

subsection \<open>Creating\<close>

text \<open>
  C5. A request to create a user whose \<^verbatim>\<open>name\<close> and \<^verbatim>\<open>email\<close> are non-empty strings is answered,
  in both versions, with 201 and a user that holds the two submitted values as they were sent,
  the id generated for this request and the time of the request; the id is not empty when the
  generator's result is not. That user is inserted into the users table under its id.
\<close>

theorem valid_user_created_verbatim:
  assumes "js_get b ''name'' = JStr n" and "n \<noteq> []"
    and "js_get b ''email'' = JStr m" and "m \<noteq> []"
    and "uuidv4 e \<noteq> []"
  shows "\<exists>u. handle v e (POST_users b) s =
           (\<lparr>code = 201, sent = UserCreated ''User created successfully'' u\<rparr>,
            s\<lparr>usersStorage := put (User.id u) u (usersStorage s)\<rparr>) \<and>
         u = \<lparr>User.id = uuidv4 e, User.name = JStr n, User.email = JStr m,
              User.createdAt = new_Date e\<rparr> \<and>
         User.id u \<noteq> []"
  using assms by (cases v)
    (simp_all add: index_post_users_def part000_post_users_def validateRequestBody_def
       StableBTreeMap_insert_def Let_def new_User_def)

theorem valid_user_created_verbatim_witness:
  "handle Index \<lparr>uuidv4 = ''3f2a'', new_Date = 1700000000000\<rparr>
     (POST_users [(''name'', JStr ''Ada''), (''email'', JStr ''ada@example.com'')]) init =
   (\<lparr>code = 201, sent = UserCreated ''User created successfully''
       \<lparr>User.id = ''3f2a'', User.name = JStr ''Ada'', User.email = JStr ''ada@example.com'',
        User.createdAt = 1700000000000\<rparr>\<rparr>,
    init\<lparr>usersStorage := put ''3f2a''
       \<lparr>User.id = ''3f2a'', User.name = JStr ''Ada'', User.email = JStr ''ada@example.com'',
        User.createdAt = 1700000000000\<rparr> (usersStorage init)\<rparr>)"
proof -
  let ?b = "[(''name'', JStr ''Ada''), (''email'', JStr ''ada@example.com'')]"
  let ?e = "\<lparr>uuidv4 = ''3f2a'', new_Date = 1700000000000\<rparr>"
  have 1: "js_get ?b ''name'' = JStr ''Ada''" by (simp add: js_get_def)
  have 2: "js_get ?b ''email'' = JStr ''ada@example.com''" by (simp add: js_get_def)
  have 3: "''Ada'' \<noteq> []" "''ada@example.com'' \<noteq> []" "uuidv4 ?e \<noteq> []" by simp_all
  from valid_user_created_verbatim [OF 1 3(1) 2 3(2) 3(3), of Index init]
  show ?thesis by auto
qed

text \<open>
  C9. A create request answered with 201 makes one insertion: the new state is the old one with
  the table of the request's entity type replaced by the result of one \<^verbatim>\<open>insert\<close>, the other
  three tables being those of the old state; when the generated id is not yet a key of that
  table, the table gains exactly the new entry. A request answered with 400 leaves the state
  as it was, and a create request is answered with 201 or 400.
\<close>

theorem create_is_one_insert:
  assumes "handle v e r s = (resp, s')"
  shows "(code resp = 201 \<longrightarrow>
            (\<exists>b u. r = POST_users b \<and> sent resp = UserCreated ''User created successfully'' u \<and>
               s' = s\<lparr>usersStorage := put (uuidv4 e) u (usersStorage s)\<rparr> \<and>
               (uuidv4 e \<notin> set (map fst (usersStorage s)) \<longrightarrow>
                  mset (usersStorage s') = add_mset (uuidv4 e, u) (mset (usersStorage s)))) \<or>
            (\<exists>b u. r = POST_books b \<and> sent resp = BookCreated ''Book created successfully'' u \<and>
               s' = s\<lparr>booksStorage := put (uuidv4 e) u (booksStorage s)\<rparr> \<and>
               (uuidv4 e \<notin> set (map fst (booksStorage s)) \<longrightarrow>
                  mset (booksStorage s') = add_mset (uuidv4 e, u) (mset (booksStorage s)))) \<or>
            (\<exists>b u. r = POST_swapRequests b \<and>
               sent resp = SwapRequestCreated ''Swap request created successfully'' u \<and>
               s' = s\<lparr>swapRequestsStorage := put (uuidv4 e) u (swapRequestsStorage s)\<rparr> \<and>
               (uuidv4 e \<notin> set (map fst (swapRequestsStorage s)) \<longrightarrow>
                  mset (swapRequestsStorage s') =
                    add_mset (uuidv4 e, u) (mset (swapRequestsStorage s)))) \<or>
            (\<exists>b u. r = POST_feedback b \<and>
               sent resp = FeedbackCreated ''Feedback created successfully'' u \<and>
               s' = s\<lparr>feedbackStorage := put (uuidv4 e) u (feedbackStorage s)\<rparr> \<and>
               (uuidv4 e \<notin> set (map fst (feedbackStorage s)) \<longrightarrow>
                  mset (feedbackStorage s') = add_mset (uuidv4 e, u) (mset (feedbackStorage s))))) \<and>
         (code resp = 400 \<longrightarrow> s' = s) \<and>
         (is_create r \<longrightarrow> code resp = 201 \<or> code resp = 400)"
proof -
  from assms have resp: "resp = fst (handle v e r s)" and s': "s' = snd (handle v e r s)"
    by simp_all
  show ?thesis
  proof (cases rule: handle_cases [of r v e s])
    case Rejected
    then show ?thesis unfolding resp s' by simp
  next
    case Listed
    then show ?thesis unfolding resp s' by simp
  next
    case (User b u)
    then show ?thesis unfolding resp s' by (simp add: put_fresh_mset)
  next
    case (Book b u)
    then show ?thesis unfolding resp s' by (simp add: put_fresh_mset)
  next
    case (SwapRequest b u)
    then show ?thesis unfolding resp s' by (simp add: put_fresh_mset)
  next
    case (Feedback b u)
    then show ?thesis unfolding resp s' by (simp add: put_fresh_mset)
  qed
qed

theorem create_is_one_insert_witness:
  "code (fst (handle Index \<lparr>uuidv4 = ''u1'', new_Date = 7\<rparr>
      (POST_users [(''name'', JStr ''Ada''), (''email'', JStr ''ada@example.com'')]) init)) = 201 \<and>
   snd (handle Index \<lparr>uuidv4 = ''u1'', new_Date = 7\<rparr>
      (POST_users [(''name'', JStr ''Ada''), (''email'', JStr ''ada@example.com'')]) init) =
     init\<lparr>usersStorage := put ''u1''
       \<lparr>User.id = ''u1'', User.name = JStr ''Ada'', User.email = JStr ''ada@example.com'',
        User.createdAt = 7\<rparr> (usersStorage init)\<rparr> \<and>
   mset (usersStorage (snd (handle Index \<lparr>uuidv4 = ''u1'', new_Date = 7\<rparr>
      (POST_users [(''name'', JStr ''Ada''), (''email'', JStr ''ada@example.com'')]) init))) =
     add_mset (''u1'', \<lparr>User.id = ''u1'', User.name = JStr ''Ada'',
        User.email = JStr ''ada@example.com'', User.createdAt = 7\<rparr>) (mset (usersStorage init))"
proof -
  let ?e = "\<lparr>uuidv4 = ''u1'', new_Date = 7\<rparr>"
  let ?r = "POST_users [(''name'', JStr ''Ada''), (''email'', JStr ''ada@example.com'')]"
  let ?u = "\<lparr>User.id = ''u1'', User.name = JStr ''Ada'', User.email = JStr ''ada@example.com'',
        User.createdAt = 7\<rparr>"
  have h: "handle Index ?e ?r init = (fst (handle Index ?e ?r init), snd (handle Index ?e ?r init))"
    by simp
  have c: "code (fst (handle Index ?e ?r init)) = 201"
    and u: "sent (fst (handle Index ?e ?r init)) = UserCreated ''User created successfully'' ?u"
    and f: "uuidv4 ?e \<notin> set (map fst (usersStorage init))"
    by (simp_all add: handler_defs validateRequestBody_def js_get_def Let_def init_def)
  from create_is_one_insert [OF h] c
  have "\<exists>b u. ?r = POST_users b \<and>
      sent (fst (handle Index ?e ?r init)) = UserCreated ''User created successfully'' u \<and>
      snd (handle Index ?e ?r init) =
        init\<lparr>usersStorage := put (uuidv4 ?e) u (usersStorage init)\<rparr> \<and>
      (uuidv4 ?e \<notin> set (map fst (usersStorage init)) \<longrightarrow>
         mset (usersStorage (snd (handle Index ?e ?r init))) =
           add_mset (uuidv4 ?e, u) (mset (usersStorage init)))"
    by (simp del: handle.simps)
  with u f have "snd (handle Index ?e ?r init) =
        init\<lparr>usersStorage := put ''u1'' ?u (usersStorage init)\<rparr> \<and>
      mset (usersStorage (snd (handle Index ?e ?r init))) =
           add_mset (''u1'', ?u) (mset (usersStorage init))"
    by (auto simp del: handle.simps)
  with c show ?thesis by blast
qed

subsection \<open>Invariants\<close>

lemma put_keys_are_ids:
  assumes "\<forall>(k, x) \<in> set t. k = I x" and "I u = k'"
  shows "\<forall>(k, x) \<in> set (put k' u t). k = I x"
  using assms set_put_subset [of k' u t] by auto

lemma keys_are_ids_step:
  assumes "keys_are_ids s"
  shows "keys_are_ids (snd (handle v e r s))"
proof (cases rule: handle_cases [of r v e s])
  case Rejected
  with assms show ?thesis by simp
next
  case Listed
  with assms show ?thesis by simp
next
  case (User b u)
  with assms put_keys_are_ids [of "usersStorage s" User.id u "uuidv4 e"]
  show ?thesis by (simp add: keys_are_ids_def)
next
  case (Book b u)
  with assms put_keys_are_ids [of "booksStorage s" Book.id u "uuidv4 e"]
  show ?thesis by (simp add: keys_are_ids_def)
next
  case (SwapRequest b u)
  with assms put_keys_are_ids [of "swapRequestsStorage s" SwapRequest.id u "uuidv4 e"]
  show ?thesis by (simp add: keys_are_ids_def)
next
  case (Feedback b u)
  with assms put_keys_are_ids [of "feedbackStorage s" Feedback.id u "uuidv4 e"]
  show ?thesis by (simp add: keys_are_ids_def)
qed

lemma keys_are_ids_run: "keys_are_ids s \<Longrightarrow> keys_are_ids (snd (run v evs s))"
proof (induction evs arbitrary: s)
  case Nil
  then show ?case by simp
next
  case (Cons ev evs)
  obtain e r where ev: "ev = (e, r)" by (cases ev)
  from Cons.prems have "keys_are_ids (snd (handle v e r s))" by (rule keys_are_ids_step)
  from Cons.IH [OF this] show ?case unfolding ev by (simp add: split_beta)
qed

text \<open>
  C10. In every state reached from the empty tables by any sequence of requests, every entry of
  each of the four tables is stored under the \<^verbatim>\<open>id\<close> of its entity; the empty state has the
  property and every request preserves it.
\<close>

theorem key_is_entity_id:
  "keys_are_ids init \<and>
   (keys_are_ids s \<longrightarrow> keys_are_ids (snd (handle v e r s))) \<and>
   keys_are_ids (snd (run v evs init)) \<and>
   (\<forall>(k, u) \<in> set (usersStorage (snd (run v evs init))). k = User.id u) \<and>
   (\<forall>(k, b) \<in> set (booksStorage (snd (run v evs init))). k = Book.id b) \<and>
   (\<forall>(k, x) \<in> set (swapRequestsStorage (snd (run v evs init))). k = SwapRequest.id x) \<and>
   (\<forall>(k, f) \<in> set (feedbackStorage (snd (run v evs init))). k = Feedback.id f)"
proof -
  have i: "keys_are_ids init" by (simp add: keys_are_ids_def init_def)
  then have r: "keys_are_ids (snd (run v evs init))" by (rule keys_are_ids_run)
  have "keys_are_ids s \<longrightarrow> keys_are_ids (snd (handle v e r s))"
    using keys_are_ids_step by blast
  with i r show ?thesis
    unfolding keys_are_ids_def by blast
qed

theorem key_is_entity_id_witness:
  "map fst (usersStorage (snd (run Part000
      [(\<lparr>uuidv4 = ''u2'', new_Date = 1\<rparr>,
          POST_users [(''name'', JStr ''Ada''), (''email'', JStr ''ada@example.com'')]),
       (\<lparr>uuidv4 = ''b1'', new_Date = 2\<rparr>, POST_books [(''title'', JStr ''T'')]),
       (\<lparr>uuidv4 = ''u1'', new_Date = 3\<rparr>,
          POST_users [(''name'', JStr ''Bob''), (''email'', JStr ''bob@example.com'')])]
      init))) = [''u1'', ''u2''] \<and>
   map (User.id \<circ> snd) (usersStorage (snd (run Part000
      [(\<lparr>uuidv4 = ''u2'', new_Date = 1\<rparr>,
          POST_users [(''name'', JStr ''Ada''), (''email'', JStr ''ada@example.com'')]),
       (\<lparr>uuidv4 = ''b1'', new_Date = 2\<rparr>, POST_books [(''title'', JStr ''T'')]),
       (\<lparr>uuidv4 = ''u1'', new_Date = 3\<rparr>,
          POST_users [(''name'', JStr ''Bob''), (''email'', JStr ''bob@example.com'')])]
      init))) = [''u1'', ''u2'']"
proof -
  let ?evs = "[(\<lparr>uuidv4 = ''u2'', new_Date = 1\<rparr>,
          POST_users [(''name'', JStr ''Ada''), (''email'', JStr ''ada@example.com'')]),
       (\<lparr>uuidv4 = ''b1'', new_Date = 2\<rparr>, POST_books [(''title'', JStr ''T'')]),
       (\<lparr>uuidv4 = ''u1'', new_Date = 3\<rparr>,
          POST_users [(''name'', JStr ''Bob''), (''email'', JStr ''bob@example.com'')])]"
  have keys: "map fst (usersStorage (snd (run Part000 ?evs init))) = [''u1'', ''u2'']"
    by (simp add: handler_defs js_get_def Let_def init_def)
  from key_is_entity_id [where v = Part000 and evs = "?evs"]
  have "\<forall>(k, u) \<in> set (usersStorage (snd (run Part000 ?evs init))). k = User.id u"
    by blast
  then have "map (User.id \<circ> snd) (usersStorage (snd (run Part000 ?evs init))) =
      map fst (usersStorage (snd (run Part000 ?evs init)))"
    by (auto simp del: run.simps)
  with keys show ?thesis by (simp del: run.simps)
qed

subsection \<open>Sequences of requests\<close>

text \<open>
  What a sequence of requests does to one table, for any of the four: the table is given by its
  projection \<open>T\<close> from the state, the entity a response reports by \<open>C\<close>, the entity's id by \<open>I\<close>.
\<close>

lemma run_Cons:
  "run v ((e, r) # evs) s =
     (fst (handle v e r s) # fst (run v evs (snd (handle v e r s))),
      snd (run v evs (snd (handle v e r s))))"
  by (simp add: split_beta)

lemma run_tables:
  fixes T :: "state \<Rightarrow> (string \<times> 'a) list" and C :: "response \<Rightarrow> 'a list" and I :: "'a \<Rightarrow> string"
  assumes step: "\<And>e r s.
      (T (snd (handle v e r s)) = T s \<and> C (fst (handle v e r s)) = []) \<or>
      (\<exists>x. I x = uuidv4 e \<and> T (snd (handle v e r s)) = put (uuidv4 e) x (T s) \<and>
           C (fst (handle v e r s)) = [x])"
    and "distinct (uuids evs)"
    and "set (uuids evs) \<inter> set (map fst (T s)) = {}"
  shows "mset (T (snd (run v evs s))) =
           mset (T s) + mset (map (\<lambda>x. (I x, x)) (concat (map C (fst (run v evs s)))))"
  using assms(2,3)
proof (induction evs arbitrary: s)
  case Nil
  then show ?case by simp
next
  case (Cons ev evs)
  obtain e r where ev: "ev = (e, r)" by (cases ev)
  let ?s1 = "snd (handle v e r s)"
  let ?r1 = "fst (handle v e r s)"
  have fresh: "uuidv4 e \<notin> set (map fst (T s))"
    using Cons.prems(2) ev by auto
  have keys1: "set (map fst (T ?s1)) \<subseteq> insert (uuidv4 e) (set (map fst (T s)))"
    using step [of e r s] by (auto simp only: keys_put)
  have one: "mset (T ?s1) = mset (T s) + mset (map (\<lambda>x. (I x, x)) (C ?r1))"
    using step [of e r s] fresh by (auto simp: put_fresh_mset)
  have d: "distinct (uuids evs)"
    using Cons.prems(1) ev by simp
  have "set (uuids evs) \<inter> set (map fst (T ?s1)) = {}"
  proof -
    have "uuidv4 e \<notin> set (uuids evs)" "set (uuids evs) \<inter> set (map fst (T s)) = {}"
      using Cons.prems ev by auto
    with keys1 show ?thesis by blast
  qed
  from Cons.IH [OF d this] one show ?case
    unfolding ev run_Cons by simp
qed

lemma run_sorted:
  fixes T :: "state \<Rightarrow> (string \<times> 'a) list"
  assumes step: "\<And>e r s. T (snd (handle v e r s)) = T s \<or>
      (\<exists>x. T (snd (handle v e r s)) = put (uuidv4 e) x (T s))"
    and "sorted_wrt (<) (map fst (T s))"
  shows "sorted_wrt (<) (map fst (T (snd (run v evs s))))"
  using assms(2)
proof (induction evs arbitrary: s)
  case Nil
  then show ?case by simp
next
  case (Cons ev evs)
  obtain e r where ev: "ev = (e, r)" by (cases ev)
  have "sorted_wrt (<) (map fst (T (snd (handle v e r s))))"
    using step [of e r s] Cons.prems by (auto simp: sorted_put)
  from Cons.IH [OF this] show ?case
    unfolding ev run_Cons by simp
qed

lemma run_table_summary:
  fixes T :: "state \<Rightarrow> (string \<times> 'a) list" and C :: "response \<Rightarrow> 'a list" and I :: "'a \<Rightarrow> string"
  assumes step: "\<And>e r s.
      (T (snd (handle v e r s)) = T s \<and> C (fst (handle v e r s)) = []) \<or>
      (\<exists>x. I x = uuidv4 e \<and> T (snd (handle v e r s)) = put (uuidv4 e) x (T s) \<and>
           C (fst (handle v e r s)) = [x])"
    and empty: "T init = []"
    and d: "distinct (uuids evs)"
  defines "t \<equiv> T (snd (run v evs init))"
    and "cs \<equiv> concat (map C (fst (run v evs init)))"
  shows "mset (map snd t) = mset cs \<and> length (map snd t) = length cs \<and>
         sorted_wrt (<) (map I (map snd t)) \<and> distinct (map I (map snd t)) \<and>
         distinct (map I cs) \<and> set cs = set (map snd t) \<and>
         map fst t = map I (map snd t)"
proof -
  have "set (uuids evs) \<inter> set (map fst (T init)) = {}"
    using empty by simp
  from run_tables [where T = T and C = C and I = I, OF step d this]
  have m: "mset t = mset (map (\<lambda>x. (I x, x)) cs)"
    unfolding t_def cs_def using empty by simp
  have "mset (map snd t) = mset (map snd (map (\<lambda>x. (I x, x)) cs))"
    using m by (metis mset_map)
  moreover have "map snd (map (\<lambda>x. (I x, x)) cs) = cs"
    by (induction cs) simp_all
  ultimately have vals: "mset (map snd t) = mset cs"
    by (simp only:)
  then have len: "length (map snd t) = length cs"
    by (rule mset_eq_length)
  from vals have sets: "set cs = set (map snd t)"
    using mset_eq_setD by metis
  have "set t = set (map (\<lambda>x. (I x, x)) cs)"
    using m by (rule mset_eq_setD)
  then have "\<forall>p \<in> set t. fst p = I (snd p)" by auto
  then have kid: "map fst t = map I (map snd t)" by simp
  have step': "\<And>e r s. T (snd (handle v e r s)) = T s \<or>
      (\<exists>x. T (snd (handle v e r s)) = put (uuidv4 e) x (T s))"
    using step by blast
  have "sorted_wrt (<) (map fst (T init))" using empty by simp
  from run_sorted [where T = T, OF step' this]
  have "sorted_wrt (<) (map fst t)"
    unfolding t_def .
  then have srt: "sorted_wrt (<) (map I (map snd t))"
    using kid by (simp only:)
  then have dt: "distinct (map I (map snd t))"
    by (simp only: strict_sorted_iff)
  have "mset (map I (map snd t)) = mset (map I cs)"
    using vals by (metis mset_map)
  with dt have "distinct (map I cs)"
    using mset_eq_imp_distinct_iff by blast
  with vals len srt dt sets kid show ?thesis by (simp only: simp_thms)
qed

lemma step_users:
  "(usersStorage (snd (handle v e r s)) = usersStorage s \<and> user_of (fst (handle v e r s)) = []) \<or>
   (\<exists>u. User.id u = uuidv4 e \<and>
        usersStorage (snd (handle v e r s)) = put (uuidv4 e) u (usersStorage s) \<and>
        user_of (fst (handle v e r s)) = [u])"
  by (cases v; cases r) (simp_all add: handler_defs user_of_def Let_def)

lemma step_books:
  "(booksStorage (snd (handle v e r s)) = booksStorage s \<and> book_of (fst (handle v e r s)) = []) \<or>
   (\<exists>u. Book.id u = uuidv4 e \<and>
        booksStorage (snd (handle v e r s)) = put (uuidv4 e) u (booksStorage s) \<and>
        book_of (fst (handle v e r s)) = [u])"
  by (cases v; cases r) (simp_all add: handler_defs book_of_def Let_def)

lemma step_swapRequests:
  "(swapRequestsStorage (snd (handle v e r s)) = swapRequestsStorage s \<and>
      swapRequest_of (fst (handle v e r s)) = []) \<or>
   (\<exists>u. SwapRequest.id u = uuidv4 e \<and>
        swapRequestsStorage (snd (handle v e r s)) = put (uuidv4 e) u (swapRequestsStorage s) \<and>
        swapRequest_of (fst (handle v e r s)) = [u])"
  by (cases v; cases r) (simp_all add: handler_defs swapRequest_of_def Let_def)

lemma step_feedback:
  "(feedbackStorage (snd (handle v e r s)) = feedbackStorage s \<and>
      feedback_of (fst (handle v e r s)) = []) \<or>
   (\<exists>u. Feedback.id u = uuidv4 e \<and>
        feedbackStorage (snd (handle v e r s)) = put (uuidv4 e) u (feedbackStorage s) \<and>
        feedback_of (fst (handle v e r s)) = [u])"
  by (cases v; cases r) (simp_all add: handler_defs feedback_of_def Let_def)


lemma init_tables:
  "usersStorage init = []" "booksStorage init = []" "swapRequestsStorage init = []"
  "feedbackStorage init = []"
  by (simp_all add: init_def)

lemmas users_summary =
  run_table_summary [where T = usersStorage and C = user_of and I = User.id,
    OF step_users init_tables(1), folded created_users_def]

lemmas books_summary =
  run_table_summary [where T = booksStorage and C = book_of and I = Book.id,
    OF step_books init_tables(2), folded created_books_def]

lemmas swapRequests_summary =
  run_table_summary [where T = swapRequestsStorage and C = swapRequest_of and I = SwapRequest.id,
    OF step_swapRequests init_tables(3), folded created_swapRequests_def]

lemmas feedback_summary =
  run_table_summary [where T = feedbackStorage and C = feedback_of and I = Feedback.id,
    OF step_feedback init_tables(4), folded created_feedback_def]

lemma code_independent:
  "code (fst (handle v e r s)) = code (fst (handle v e' r s'))"
  by (cases v; cases r) (simp_all add: handler_defs Let_def)

lemma put_fresh_differs: "k \<notin> set (map fst t) \<Longrightarrow> put k v t \<noteq> t"
proof
  assume "k \<notin> set (map fst t)" and "put k v t = t"
  then have "set (map fst (put k v t)) = set (map fst t)" by simp
  with \<open>k \<notin> set (map fst t)\<close> show False by (simp only: keys_put) blast
qed

lemma create_twice:
  assumes "code (fst (handle v e1 r s)) = 201"
    and "uuidv4 e2 \<notin> set (stored_ids (snd (handle v e1 r s)))"
  shows "code (fst (handle v e2 r (snd (handle v e1 r s)))) = 201 \<and>
         snd (handle v e2 r (snd (handle v e1 r s))) \<noteq> snd (handle v e1 r s)"
proof -
  let ?s1 = "snd (handle v e1 r s)"
  have c: "code (fst (handle v e2 r ?s1)) = 201"
    using assms(1) code_independent [of v e2 r ?s1 e1 s] by simp
  have fresh: "uuidv4 e2 \<notin> set (map fst (usersStorage ?s1))"
    "uuidv4 e2 \<notin> set (map fst (booksStorage ?s1))"
    "uuidv4 e2 \<notin> set (map fst (swapRequestsStorage ?s1))"
    "uuidv4 e2 \<notin> set (map fst (feedbackStorage ?s1))"
    using assms(2) by (simp_all add: stored_ids_def)
  have "snd (handle v e2 r ?s1) \<noteq> ?s1"
  proof (cases rule: handle_cases [of r v e2 ?s1])
    case Rejected
    with c show ?thesis by simp
  next
    case Listed
    with c show ?thesis by simp
  next
    case (User b u)
    have "usersStorage (snd (handle v e2 r ?s1)) \<noteq> usersStorage ?s1"
      using User(3) put_fresh_differs [OF fresh(1), of u] by simp
    then show ?thesis by auto
  next
    case (Book b u)
    have "booksStorage (snd (handle v e2 r ?s1)) \<noteq> booksStorage ?s1"
      using Book(3) put_fresh_differs [OF fresh(2), of u] by simp
    then show ?thesis by auto
  next
    case (SwapRequest b u)
    have "swapRequestsStorage (snd (handle v e2 r ?s1)) \<noteq> swapRequestsStorage ?s1"
      using SwapRequest(3) put_fresh_differs [OF fresh(3), of u] by simp
    then show ?thesis by auto
  next
    case (Feedback b u)
    have "feedbackStorage (snd (handle v e2 r ?s1)) \<noteq> feedbackStorage ?s1"
      using Feedback(3) put_fresh_differs [OF fresh(4), of u] by simp
    then show ?thesis by auto
  qed
  with c show ?thesis by simp
qed

text \<open>
  C6. After any sequence of requests served from the empty tables (with the generated ids
  pairwise distinct, as the specification assumes of the generator), each list endpoint answers
  200 with an array that holds exactly the entities reported by the 201 responses so far, each
  once, in ascending order of id; its length is the number of successful creates of that type.
\<close>

theorem list_returns_created:
  assumes "distinct (uuids evs)"
  shows "(\<exists>us. handle v e GET_users (snd (run v evs init)) =
            (\<lparr>code = 200, sent = UsersRetrieved ''Users retrieved successfully'' us\<rparr>,
             snd (run v evs init)) \<and>
          mset us = mset (created_users (fst (run v evs init))) \<and>
          length us = length (created_users (fst (run v evs init))) \<and>
          sorted_wrt (<) (map User.id us)) \<and>
         (\<exists>bs. handle v e GET_books (snd (run v evs init)) =
            (\<lparr>code = 200, sent = BooksRetrieved ''Books retrieved successfully'' bs\<rparr>,
             snd (run v evs init)) \<and>
          mset bs = mset (created_books (fst (run v evs init))) \<and>
          length bs = length (created_books (fst (run v evs init))) \<and>
          sorted_wrt (<) (map Book.id bs)) \<and>
         (\<exists>xs. handle v e GET_swapRequests (snd (run v evs init)) =
            (\<lparr>code = 200,
              sent = SwapRequestsRetrieved ''Swap requests retrieved successfully'' xs\<rparr>,
             snd (run v evs init)) \<and>
          mset xs = mset (created_swapRequests (fst (run v evs init))) \<and>
          length xs = length (created_swapRequests (fst (run v evs init))) \<and>
          sorted_wrt (<) (map SwapRequest.id xs)) \<and>
         (\<exists>fs. handle v e GET_feedback (snd (run v evs init)) =
            (\<lparr>code = 200, sent = FeedbackRetrieved ''Feedback retrieved successfully'' fs\<rparr>,
             snd (run v evs init)) \<and>
          mset fs = mset (created_feedback (fst (run v evs init))) \<and>
          length fs = length (created_feedback (fst (run v evs init))) \<and>
          sorted_wrt (<) (map Feedback.id fs))"
proof (intro conjI)
  let ?s = "snd (run v evs init)"
  have "handle v e GET_users ?s =
      (\<lparr>code = 200, sent = UsersRetrieved ''Users retrieved successfully''
          (map snd (usersStorage ?s))\<rparr>, ?s)"
    by (simp add: get_users_def StableBTreeMap_values_def)
  with users_summary [OF assms, of v]
  show "\<exists>us. handle v e GET_users ?s =
            (\<lparr>code = 200, sent = UsersRetrieved ''Users retrieved successfully'' us\<rparr>, ?s) \<and>
          mset us = mset (created_users (fst (run v evs init))) \<and>
          length us = length (created_users (fst (run v evs init))) \<and>
          sorted_wrt (<) (map User.id us)"
    by blast
  have "handle v e GET_books ?s =
      (\<lparr>code = 200, sent = BooksRetrieved ''Books retrieved successfully''
          (map snd (booksStorage ?s))\<rparr>, ?s)"
    by (simp add: get_books_def StableBTreeMap_values_def)
  with books_summary [OF assms, of v]
  show "\<exists>bs. handle v e GET_books ?s =
            (\<lparr>code = 200, sent = BooksRetrieved ''Books retrieved successfully'' bs\<rparr>, ?s) \<and>
          mset bs = mset (created_books (fst (run v evs init))) \<and>
          length bs = length (created_books (fst (run v evs init))) \<and>
          sorted_wrt (<) (map Book.id bs)"
    by blast
  have "handle v e GET_swapRequests ?s =
      (\<lparr>code = 200, sent = SwapRequestsRetrieved ''Swap requests retrieved successfully''
          (map snd (swapRequestsStorage ?s))\<rparr>, ?s)"
    by (simp add: get_swapRequests_def StableBTreeMap_values_def)
  with swapRequests_summary [OF assms, of v]
  show "\<exists>xs. handle v e GET_swapRequests ?s =
            (\<lparr>code = 200,
              sent = SwapRequestsRetrieved ''Swap requests retrieved successfully'' xs\<rparr>, ?s) \<and>
          mset xs = mset (created_swapRequests (fst (run v evs init))) \<and>
          length xs = length (created_swapRequests (fst (run v evs init))) \<and>
          sorted_wrt (<) (map SwapRequest.id xs)"
    by blast
  have "handle v e GET_feedback ?s =
      (\<lparr>code = 200, sent = FeedbackRetrieved ''Feedback retrieved successfully''
          (map snd (feedbackStorage ?s))\<rparr>, ?s)"
    by (simp add: get_feedback_def StableBTreeMap_values_def)
  with feedback_summary [OF assms, of v]
  show "\<exists>fs. handle v e GET_feedback ?s =
            (\<lparr>code = 200, sent = FeedbackRetrieved ''Feedback retrieved successfully'' fs\<rparr>, ?s) \<and>
          mset fs = mset (created_feedback (fst (run v evs init))) \<and>
          length fs = length (created_feedback (fst (run v evs init))) \<and>
          sorted_wrt (<) (map Feedback.id fs)"
    by blast
qed


theorem list_returns_created_witness:
  "(\<exists>us. handle Index \<lparr>uuidv4 = ''g1'', new_Date = 9\<rparr> GET_users
      (snd (run Index
        [(\<lparr>uuidv4 = ''u3'', new_Date = 1\<rparr>,
            POST_users [(''name'', JStr ''Ada''), (''email'', JStr ''ada@example.com'')]),
         (\<lparr>uuidv4 = ''u1'', new_Date = 2\<rparr>,
            POST_users [(''name'', JStr ''Bob''), (''email'', JStr ''bob@example.com'')]),
         (\<lparr>uuidv4 = ''u2'', new_Date = 3\<rparr>,
            POST_users [(''name'', JStr ''Cy''), (''email'', JStr ''cy@example.com'')])]
        init)) =
      (\<lparr>code = 200, sent = UsersRetrieved ''Users retrieved successfully'' us\<rparr>,
       snd (run Index
        [(\<lparr>uuidv4 = ''u3'', new_Date = 1\<rparr>,
            POST_users [(''name'', JStr ''Ada''), (''email'', JStr ''ada@example.com'')]),
         (\<lparr>uuidv4 = ''u1'', new_Date = 2\<rparr>,
            POST_users [(''name'', JStr ''Bob''), (''email'', JStr ''bob@example.com'')]),
         (\<lparr>uuidv4 = ''u2'', new_Date = 3\<rparr>,
            POST_users [(''name'', JStr ''Cy''), (''email'', JStr ''cy@example.com'')])]
        init)) \<and>
     length us = 3 \<and> set (map User.id us) = {''u1'', ''u2'', ''u3''} \<and>
     sorted_wrt (<) (map User.id us))"
proof -
  let ?evs = "[(\<lparr>uuidv4 = ''u3'', new_Date = 1\<rparr>,
            POST_users [(''name'', JStr ''Ada''), (''email'', JStr ''ada@example.com'')]),
         (\<lparr>uuidv4 = ''u1'', new_Date = 2\<rparr>,
            POST_users [(''name'', JStr ''Bob''), (''email'', JStr ''bob@example.com'')]),
         (\<lparr>uuidv4 = ''u2'', new_Date = 3\<rparr>,
            POST_users [(''name'', JStr ''Cy''), (''email'', JStr ''cy@example.com'')])]"
  have d: "distinct (uuids ?evs)" by simp
  have c: "map User.id (created_users (fst (run Index ?evs init))) = [''u3'', ''u1'', ''u2'']"
    by (simp add: created_users_def user_of_def handler_defs validateRequestBody_def js_get_def
        Let_def)
  from list_returns_created [OF d, of Index "\<lparr>uuidv4 = ''g1'', new_Date = 9\<rparr>"]
  obtain us where us: "handle Index \<lparr>uuidv4 = ''g1'', new_Date = 9\<rparr> GET_users
        (snd (run Index ?evs init)) =
      (\<lparr>code = 200, sent = UsersRetrieved ''Users retrieved successfully'' us\<rparr>,
       snd (run Index ?evs init))"
    "mset us = mset (created_users (fst (run Index ?evs init)))"
    "length us = length (created_users (fst (run Index ?evs init)))"
    "sorted_wrt (<) (map User.id us)"
    by blast
  from c have "length (created_users (fst (run Index ?evs init))) = 3"
    using length_map [of User.id "created_users (fst (run Index ?evs init))"] by (simp only:) simp
  with us(3) have l: "length us = 3" by (simp only:)
  from us(2) have "set us = set (created_users (fst (run Index ?evs init)))"
    by (rule mset_eq_setD)
  then have "set (map User.id us) = set (map User.id (created_users (fst (run Index ?evs init))))"
    by (simp only: set_map)
  with c have "set (map User.id us) = {''u1'', ''u2'', ''u3''}"
    by (simp only:) auto
  with us(1,4) l show ?thesis by blast
qed

text \<open>
  C7. With pairwise distinct generated ids, the entities created by a sequence of requests have
  pairwise distinct ids, whatever their bodies; each of them is in its table, as it was reported,
  in the state after the whole sequence; and the ids within a table are pairwise distinct. Create
  is not idempotent: when a create request has been answered with 201, the same request with an
  id that is not yet stored is answered with 201 again and changes the state again.
\<close>

theorem creates_yield_distinct_entities:
  assumes "distinct (uuids evs)"
  shows "(distinct (map User.id (created_users (fst (run v evs init)))) \<and>
          set (created_users (fst (run v evs init))) =
            set (map snd (usersStorage (snd (run v evs init)))) \<and>
          distinct (map User.id (map snd (usersStorage (snd (run v evs init)))))) \<and>
         (distinct (map Book.id (created_books (fst (run v evs init)))) \<and>
          set (created_books (fst (run v evs init))) =
            set (map snd (booksStorage (snd (run v evs init)))) \<and>
          distinct (map Book.id (map snd (booksStorage (snd (run v evs init)))))) \<and>
         (distinct (map SwapRequest.id (created_swapRequests (fst (run v evs init)))) \<and>
          set (created_swapRequests (fst (run v evs init))) =
            set (map snd (swapRequestsStorage (snd (run v evs init)))) \<and>
          distinct (map SwapRequest.id (map snd (swapRequestsStorage (snd (run v evs init)))))) \<and>
         (distinct (map Feedback.id (created_feedback (fst (run v evs init)))) \<and>
          set (created_feedback (fst (run v evs init))) =
            set (map snd (feedbackStorage (snd (run v evs init)))) \<and>
          distinct (map Feedback.id (map snd (feedbackStorage (snd (run v evs init)))))) \<and>
         (code (fst (handle v e1 r s)) = 201 \<and>
          uuidv4 e2 \<notin> set (stored_ids (snd (handle v e1 r s))) \<longrightarrow>
            code (fst (handle v e2 r (snd (handle v e1 r s)))) = 201 \<and>
            snd (handle v e2 r (snd (handle v e1 r s))) \<noteq> snd (handle v e1 r s))"
proof (intro conjI)
  show "code (fst (handle v e1 r s)) = 201 \<and>
          uuidv4 e2 \<notin> set (stored_ids (snd (handle v e1 r s))) \<longrightarrow>
            code (fst (handle v e2 r (snd (handle v e1 r s)))) = 201 \<and>
            snd (handle v e2 r (snd (handle v e1 r s))) \<noteq> snd (handle v e1 r s)"
    using create_twice [of v e1 r s e2] by blast
qed (use users_summary [OF assms, of v] books_summary [OF assms, of v]
      swapRequests_summary [OF assms, of v] feedback_summary [OF assms, of v] in blast)+


theorem creates_yield_distinct_entities_witness:
  "distinct (map User.id (created_users (fst (run Part000
      [(\<lparr>uuidv4 = ''u1'', new_Date = 1\<rparr>,
          POST_users [(''name'', JStr ''Ada''), (''email'', JStr ''ada@example.com'')]),
       (\<lparr>uuidv4 = ''u2'', new_Date = 1\<rparr>,
          POST_users [(''name'', JStr ''Ada''), (''email'', JStr ''ada@example.com'')])]
      init)))) \<and>
   length (created_users (fst (run Part000
      [(\<lparr>uuidv4 = ''u1'', new_Date = 1\<rparr>,
          POST_users [(''name'', JStr ''Ada''), (''email'', JStr ''ada@example.com'')]),
       (\<lparr>uuidv4 = ''u2'', new_Date = 1\<rparr>,
          POST_users [(''name'', JStr ''Ada''), (''email'', JStr ''ada@example.com'')])]
      init))) = 2 \<and>
   set (created_users (fst (run Part000
      [(\<lparr>uuidv4 = ''u1'', new_Date = 1\<rparr>,
          POST_users [(''name'', JStr ''Ada''), (''email'', JStr ''ada@example.com'')]),
       (\<lparr>uuidv4 = ''u2'', new_Date = 1\<rparr>,
          POST_users [(''name'', JStr ''Ada''), (''email'', JStr ''ada@example.com'')])]
      init))) =
   set (map snd (usersStorage (snd (run Part000
      [(\<lparr>uuidv4 = ''u1'', new_Date = 1\<rparr>,
          POST_users [(''name'', JStr ''Ada''), (''email'', JStr ''ada@example.com'')]),
       (\<lparr>uuidv4 = ''u2'', new_Date = 1\<rparr>,
          POST_users [(''name'', JStr ''Ada''), (''email'', JStr ''ada@example.com'')])]
      init))))"
proof -
  let ?evs = "[(\<lparr>uuidv4 = ''u1'', new_Date = 1\<rparr>,
          POST_users [(''name'', JStr ''Ada''), (''email'', JStr ''ada@example.com'')]),
       (\<lparr>uuidv4 = ''u2'', new_Date = 1\<rparr>,
          POST_users [(''name'', JStr ''Ada''), (''email'', JStr ''ada@example.com'')])]"
  have d: "distinct (uuids ?evs)" by simp
  have l: "length (created_users (fst (run Part000 ?evs init))) = 2"
    by (simp add: created_users_def user_of_def handler_defs js_get_def Let_def)
  from creates_yield_distinct_entities [OF d, of Part000] l show ?thesis
    by blast
qed

end
